theory Spec2Isabelle
  imports Main
begin

section \<open>The decode tree of \<open>decoder.py\<close>\<close>

text \<open>
  The module \<open>decoder.py\<close> defines one class, \<open>EncodingTable\<close>, with a
  constructor that builds a tree of tables from an XML document, and the methods
  \<open>decode\<close> and \<open>matchVar\<close> that classify an instruction with it. This theory
  embeds the three of them. Every \<open>raise\<close> of the Python (a missing attribute, a
  \<open>find\<close> that returned \<open>None\<close>, an index out of range) is a value \<open>Inl e\<close> of
  the result type.
\<close>

subsection \<open>Python values\<close>

datatype error =
    AttributeError
  | KeyError string
  | IndexError
  | ValueError
  | CompareError

text \<open>
  A \<open>dict\<close> keeps its keys in insertion order; assigning to a key that is already
  present replaces the value and leaves the key where it is. It is an association
  list whose keys stay pairwise distinct.
\<close>

fun dict_set :: "('k \<times> 'v) list \<Rightarrow> 'k \<Rightarrow> 'v \<Rightarrow> ('k \<times> 'v) list" where
  "dict_set [] k v = [(k, v)]"
| "dict_set ((k', v') # d) k v =
     (if k' = k then (k, v) # d else (k', v') # dict_set d k v)"

text \<open>\<open>"!=" in s\<close>\<close>

fun contains_neq :: "string \<Rightarrow> bool" where
  "contains_neq (a # b # s) =
     (if a = CHR ''!'' \<and> b = CHR ''='' then True else contains_neq (b # s))"
| "contains_neq s = False"

text \<open>\<open>s.replace(" ", "")\<close>: only the space character is removed.\<close>

definition remove_spaces :: "string \<Rightarrow> string" where
  "remove_spaces s = filter (\<lambda>c. c \<noteq> CHR '' '') s"

text \<open>
  \<open>s.split("!=")\<close>: the pieces between the occurrences of the separator, found from
  the left and not overlapping; the first argument is the piece read so far,
  reversed.
\<close>

fun split_neq :: "string \<Rightarrow> string \<Rightarrow> string list" where
  "split_neq acc (a # b # s) =
     (if a = CHR ''!'' \<and> b = CHR ''='' then rev acc # split_neq [] s
      else split_neq (a # acc) (b # s))"
| "split_neq acc [a] = [rev (a # acc)]"
| "split_neq acc [] = [rev acc]"

text \<open>
  \<open>int(s)\<close> on a string, base ten: surrounding whitespace is dropped, one sign is
  allowed, and the digits may be grouped by single underscores. \<open>None\<close> stands for
  \<open>ValueError\<close>. A character is a code point below 256: the whitespace that
  \<open>int\<close> drops is the space, the characters 9 to 13, and the two code points
  0x85 and 0xA0; the only decimal digits are \<open>0\<close> to \<open>9\<close>.
\<close>

definition is_space :: "char \<Rightarrow> bool" where
  "is_space c =
     (c \<in> set [CHR '' '', CHR 0x09, CHR 0x0A, CHR 0x0B, CHR 0x0C, CHR 0x0D,
                CHR 0x85, CHR 0xA0])"

definition is_digit :: "char \<Rightarrow> bool" where
  "is_digit c = (c \<in> set ''0123456789'')"

definition strip :: "string \<Rightarrow> string" where
  "strip s = rev (dropWhile is_space (rev (dropWhile is_space s)))"

fun digits_ok :: "string \<Rightarrow> bool" where
  "digits_ok [] = False"
| "digits_ok [c] = is_digit c"
| "digits_ok (c # d # s) =
     (is_digit c \<and> (if d = CHR ''_'' then digits_ok s else digits_ok (d # s)))"

definition digit_val :: "char \<Rightarrow> int" where
  "digit_val c = int (of_char c) - 48"

definition digits_val :: "string \<Rightarrow> int" where
  "digits_val s = foldl (\<lambda>n c. 10 * n + digit_val c) 0 (filter is_digit s)"

definition py_int :: "string \<Rightarrow> int option" where
  "py_int s =
     (case strip s of
        [] \<Rightarrow> None
      | c # r \<Rightarrow>
          if c = CHR ''-'' then (if digits_ok r then Some (- digits_val r) else None)
          else if c = CHR ''+'' then (if digits_ok r then Some (digits_val r) else None)
          else if digits_ok (c # r) then Some (digits_val (c # r)) else None)"

subsection \<open>The XML document\<close>

text \<open>
  An \<open>xml.etree.ElementTree.Element\<close>: its tag, its attributes, its text (\<open>None\<close>
  when the element has none) and its children in document order.
\<close>

datatype xml =
  Element (tag: string) (attrib: "(string \<times> string) list") (elem_text: "string option")
    (children: "xml list")

text \<open>\<open>e.find(t)\<close> and \<open>e.findall(t)\<close> for a plain tag name look at the children only.\<close>

definition findall :: "string \<Rightarrow> xml \<Rightarrow> xml list" where
  "findall t e = filter (\<lambda>c. tag c = t) (children e)"

definition find_first :: "string \<Rightarrow> xml \<Rightarrow> xml option" where
  "find_first t e = List.find (\<lambda>c. tag c = t) (children e)"

text \<open>\<open>e.findall(".//t")\<close>: every element below \<open>e\<close> with that tag, in document order.\<close>

fun descendants :: "xml \<Rightarrow> xml list" where
  "descendants (Element t a x cs) = concat (map (\<lambda>c. c # descendants c) cs)"

definition findall_deep :: "string \<Rightarrow> xml \<Rightarrow> xml list" where
  "findall_deep t e = filter (\<lambda>c. tag c = t) (descendants e)"

definition has_attr :: "string \<Rightarrow> xml \<Rightarrow> bool" where
  "has_attr k e = (map_of (attrib e) k \<noteq> None)"

definition get_attr :: "string \<Rightarrow> xml \<Rightarrow> error + string" where
  "get_attr k e = (case map_of (attrib e) k of None \<Rightarrow> Inl (KeyError k) | Some v \<Rightarrow> Inr v)"

subsection \<open>The table\<close>

text \<open>
  A row key is a tuple of (variable name, expected value) pairs. In a table of an
  \<open>iclass_sect\<close> both come from the text of an element, which may be \<open>None\<close>.
\<close>

type_synonym constraint = "string option \<times> string option"
type_synonym rowkey = "constraint list"

text \<open>The argument of \<open>InstructionMapping\<close>: variable name to \<open>[hibit, width]\<close>.\<close>

type_synonym variables = "(string \<times> int \<times> int) list"

text \<open>
  An entry of a table is another table, an \<open>InstructionPage\<close> (kept as the path it
  was constructed from) or a string.
\<close>

datatype EncodingTable =
  EncodingTable (instructionMapping: variables) (entries: "(rowkey \<times> entry) list")
    (directFile: "entry option")
and entry =
    Table EncodingTable
  | InstructionPage string
  | Str string

text \<open>
  What \<open>from common import *\<close> and \<open>from disassembler import *\<close> bring in is not
  part of the module and is a parameter here: \<open>compareWithXs\<close>, which may raise,
  \<open>InstructionMapping.assignValues\<close>, which returns the sequence of (name, value)
  pairs that \<open>matchVar\<close> walks through, and \<open>InstructionPage.disassemble\<close>, whose
  result is opaque. The constant \<open>ARM_FILE_PATH\<close> is the argument \<open>path\<close> of the
  constructor's functions. The constructors of \<open>InstructionMapping\<close> and of
  \<open>InstructionPage\<close> are taken to store their argument and return.
\<close>

record ('i, 'r) common =
  compareWithXs :: "string \<Rightarrow> string \<Rightarrow> error + bool"
  assignValues :: "variables \<Rightarrow> 'i \<Rightarrow> (string \<times> string) list"
  disassemble :: "string \<Rightarrow> 'i \<Rightarrow> 'r"

text \<open>
  Modelled from the spec: the wildcard comparison, for the concrete runs below. The
  pattern and the value are compared position by position, \<open>x\<close> in the pattern
  matches any character, and a difference of length is a violated precondition.
\<close>

definition compareWithXs_spec :: "string \<Rightarrow> string \<Rightarrow> error + bool" where
  "compareWithXs_spec p v =
     (if length p \<noteq> length v then Inl CompareError
      else Inr (list_all2 (\<lambda>pc vc. pc = CHR ''x'' \<or> pc = vc) p v))"

subsection \<open>The constructor\<close>

text \<open>
  The loop over the boxes of the \<open>regdiagram\<close>. The right-hand side of the
  assignment is evaluated first: \<open>int(box.attrib["hibit"])\<close>, then \<open>int(varWidth)\<close>,
  where \<open>varWidth\<close> is the attribute \<open>width\<close> or the number 1.
\<close>

fun mapping_boxes :: "xml list \<Rightarrow> variables \<Rightarrow> error + variables" where
  "mapping_boxes [] vars = Inr vars"
| "mapping_boxes (box # boxes) vars =
     (case map_of (attrib box) ''name'' of
        None \<Rightarrow> mapping_boxes boxes vars
      | Some name \<Rightarrow>
          (case get_attr ''hibit'' box of
             Inl e \<Rightarrow> Inl e
           | Inr h \<Rightarrow>
               (case py_int h of
                  None \<Rightarrow> Inl ValueError
                | Some hibit \<Rightarrow>
                    (case (case map_of (attrib box) ''width'' of
                             None \<Rightarrow> Some 1
                           | Some w \<Rightarrow> py_int w) of
                       None \<Rightarrow> Inl ValueError
                     | Some varWidth \<Rightarrow>
                         mapping_boxes boxes (dict_set vars name (hibit, varWidth))))))"

definition build_mapping :: "xml \<Rightarrow> error + variables" where
  "build_mapping hierarchy =
     (case find_first ''regdiagram'' hierarchy of
        None \<Rightarrow> Inl AttributeError
      | Some regdiagram \<Rightarrow> mapping_boxes (findall ''box'' regdiagram) [])"

text \<open>
  The value stored for a row \<open>tr\<close> of an instruction table: the page of its
  \<open>iformfile\<close> when it has one, and its \<open>encname\<close> otherwise.
\<close>

definition row_target :: "string \<Rightarrow> xml \<Rightarrow> error + entry" where
  "row_target path tr =
     (case map_of (attrib tr) ''iformfile'' of
        Some f \<Rightarrow> Inr (InstructionPage (path @ ''/'' @ f))
      | None \<Rightarrow>
          (case get_attr ''encname'' tr of Inl e \<Rightarrow> Inl e | Inr n \<Rightarrow> Inr (Str n)))"

text \<open>
  \<open>for i in range(0, len(tableVars)): mapping.append((tableVars[i], tds[i].text))\<close>:
  \<open>tds[i]\<close> raises when the row has fewer columns than the header.
\<close>

fun row_mapping :: "string option list \<Rightarrow> xml list \<Rightarrow> error + rowkey" where
  "row_mapping [] tds = Inr []"
| "row_mapping (v # tableVars) [] = Inl IndexError"
| "row_mapping (v # tableVars) (td # tds) =
     (case row_mapping tableVars tds of
        Inl e \<Rightarrow> Inl e
      | Inr mapping \<Rightarrow> Inr ((v, elem_text td) # mapping))"

text \<open>The key and the value that one row of the table body puts into \<open>entries\<close>.\<close>

definition row_entry :: "string \<Rightarrow> string option list \<Rightarrow> xml \<Rightarrow> error + rowkey \<times> entry" where
  "row_entry path tableVars tr =
     (case row_mapping tableVars (findall ''td'' tr) of
        Inl e \<Rightarrow> Inl e
      | Inr mapping \<Rightarrow>
          (case row_target path tr of
             Inl e \<Rightarrow> Inl e
           | Inr target \<Rightarrow> Inr (mapping, target)))"

text \<open>The loop over the rows of the table body.\<close>

fun sect_rows ::
  "string \<Rightarrow> string option list \<Rightarrow> xml list \<Rightarrow> (rowkey \<times> entry) list \<Rightarrow>
     error + (rowkey \<times> entry) list"
where
  "sect_rows path tableVars [] ents = Inr ents"
| "sect_rows path tableVars (tr # trs) ents =
     (case row_entry path tableVars tr of
        Inl e \<Rightarrow> Inl e
      | Inr (mapping, target) \<Rightarrow>
          sect_rows path tableVars trs (dict_set ents mapping target))"

text \<open>
  The constructor with \<open>sect = True\<close>. The test \<open>len(headers) == 1\<close> counts the
  rows of the table head; \<open>headers[1]\<close> raises when the head has no row at all.
\<close>

definition init_sect :: "string \<Rightarrow> xml \<Rightarrow> error + EncodingTable" where
  "init_sect path hierarchy =
     (case build_mapping hierarchy of
        Inl e \<Rightarrow> Inl e
      | Inr im \<Rightarrow>
     (case find_first ''instructiontable'' hierarchy of
        None \<Rightarrow> Inl AttributeError
      | Some instructiontable \<Rightarrow>
     (case find_first ''thead'' instructiontable of
        None \<Rightarrow> Inl AttributeError
      | Some thead \<Rightarrow>
          (let headers = findall ''tr'' thead in
           if length headers = 1 then
             (case find_first ''tbody'' instructiontable of
                None \<Rightarrow> Inl AttributeError
              | Some tbody \<Rightarrow>
                  (case find_first ''tr'' tbody of
                     None \<Rightarrow> Inl AttributeError
                   | Some tr \<Rightarrow>
                       (case row_target path tr of
                          Inl e \<Rightarrow> Inl e
                        | Inr target \<Rightarrow> Inr (EncodingTable im [] (Some target)))))
           else if length headers < 2 then Inl IndexError
           else
             (let tableVars = map elem_text (findall ''th'' (headers ! 1)) in
              case find_first ''tbody'' instructiontable of
                None \<Rightarrow> Inl AttributeError
              | Some body \<Rightarrow>
                  (case sect_rows path tableVars (findall ''tr'' body) [] of
                     Inl e \<Rightarrow> Inl e
                   | Inr ents \<Rightarrow> Inr (EncodingTable im ents None)))))))"

text \<open>
  The row key of a \<open>node\<close>: for each box of its \<open>decode\<close> element, the attribute
  \<open>name\<close> and the text of the child \<open>c\<close>.
\<close>

fun decode_boxes :: "xml list \<Rightarrow> error + rowkey" where
  "decode_boxes [] = Inr []"
| "decode_boxes (box # boxes) =
     (case get_attr ''name'' box of
        Inl e \<Rightarrow> Inl e
      | Inr name \<Rightarrow>
          (case find_first ''c'' box of
             None \<Rightarrow> Inl AttributeError
           | Some c \<Rightarrow>
               (case decode_boxes boxes of
                  Inl e \<Rightarrow> Inl e
                | Inr mapping \<Rightarrow> Inr ((Some name, elem_text c) # mapping))))"

definition node_mapping :: "xml \<Rightarrow> error + rowkey" where
  "node_mapping node =
     (case find_first ''decode'' node of
        None \<Rightarrow> Inl AttributeError
      | Some decode \<Rightarrow> decode_boxes (findall ''box'' decode))"

text \<open>
  The search for the \<open>iclass_sect\<close> of a node. The loop has no \<open>break\<close> (its
  \<open>continue\<close> is the last statement of the body), so every section is visited and
  every section with the wanted \<open>id\<close> is built and assigned.
\<close>

fun sect_loop ::
  "string \<Rightarrow> xml list \<Rightarrow> string \<Rightarrow> rowkey \<Rightarrow> bool \<times> (rowkey \<times> entry) list \<Rightarrow>
     error + bool \<times> (rowkey \<times> entry) list"
where
  "sect_loop path [] iclass mapping (found, ents) = Inr (found, ents)"
| "sect_loop path (sect # sects) iclass mapping (found, ents) =
     (case get_attr ''id'' sect of
        Inl e \<Rightarrow> Inl e
      | Inr i \<Rightarrow>
          if i = iclass then
            (case init_sect path sect of
               Inl e \<Rightarrow> Inl e
             | Inr t \<Rightarrow> sect_loop path sects iclass mapping (True, dict_set ents mapping (Table t)))
          else sect_loop path sects iclass mapping (found, ents))"

text \<open>
  The constructor with \<open>sect = False\<close>, and its loop over the \<open>node\<close> children. A
  node with neither \<open>groupname\<close> nor \<open>iclass\<close> adds nothing.
\<close>

function init_nodes ::
  "string \<Rightarrow> xml \<Rightarrow> xml list \<Rightarrow> (rowkey \<times> entry) list \<Rightarrow> error + (rowkey \<times> entry) list"
and init_node :: "string \<Rightarrow> xml \<Rightarrow> xml \<Rightarrow> error + EncodingTable"
where
  "init_nodes path root [] ents = Inr ents"
| "init_nodes path root (node # nodes) ents =
     (case node_mapping node of
        Inl e \<Rightarrow> Inl e
      | Inr mapping \<Rightarrow>
          if has_attr ''groupname'' node then
            (case init_node path root node of
               Inl e \<Rightarrow> Inl e
             | Inr t \<Rightarrow> init_nodes path root nodes (dict_set ents mapping (Table t)))
          else
            (case map_of (attrib node) ''iclass'' of
               Some iclass \<Rightarrow>
                 (case sect_loop path (findall_deep ''iclass_sect'' root) iclass mapping
                         (False, ents) of
                    Inl e \<Rightarrow> Inl e
                  | Inr (found, ents') \<Rightarrow>
                      init_nodes path root nodes
                        (if \<not> found then dict_set ents' mapping (Str iclass) else ents'))
             | None \<Rightarrow> init_nodes path root nodes ents))"
| "init_node path root hierarchy =
     (case build_mapping hierarchy of
        Inl e \<Rightarrow> Inl e
      | Inr im \<Rightarrow>
          (case init_nodes path root (findall ''node'' hierarchy) [] of
             Inl e \<Rightarrow> Inl e
           | Inr ents \<Rightarrow> Inr (EncodingTable im ents None)))"
  by pat_completeness auto
termination
proof (relation "measure (case_sum (\<lambda>(path, root, nodes, ents). size_list size nodes)
                                   (\<lambda>(path, root, hierarchy). size hierarchy))")
  show "wf (measure (case_sum (\<lambda>(path, root, nodes, ents). size_list size nodes)
                              (\<lambda>(path, root, hierarchy). size hierarchy)))"
    by simp
next
  fix path :: string and root hierarchy :: xml
  have le: "size_list size (filter P cs) \<le> size_list size cs" for P and cs :: "xml list"
    by (induction cs) auto
  have "size_list size (findall ''node'' hierarchy) < size hierarchy"
    using le [of "\<lambda>c. tag c = ''node''" "children hierarchy"]
    by (cases hierarchy) (simp add: findall_def)
  then show "(Inl (path, root, findall ''node'' hierarchy, []), Inr (path, root, hierarchy))
      \<in> measure (case_sum (\<lambda>(path, root, nodes, ents). size_list size nodes)
                            (\<lambda>(path, root, hierarchy). size hierarchy))"
    by simp
qed simp_all

text \<open>\<open>EncodingTable(root, hierarchy, sect)\<close>\<close>

definition EncodingTable_init :: "string \<Rightarrow> xml \<Rightarrow> xml \<Rightarrow> bool \<Rightarrow> error + EncodingTable" where
  "EncodingTable_init path root hierarchy sect =
     (if sect then init_sect path hierarchy else init_node path root hierarchy)"

subsection \<open>\<open>matchVar\<close>\<close>

fun matchVar ::
  "(string \<Rightarrow> string \<Rightarrow> error + bool) \<Rightarrow> (string \<times> string) list \<Rightarrow> constraint \<Rightarrow> error + bool"
where
  "matchVar cmp [] tup = Inr False"
| "matchVar cmp (var # vars) tup =
     (if Some (fst var) = fst tup then
        (case snd tup of
           None \<Rightarrow> Inr True
         | Some pat \<Rightarrow>
             if contains_neq pat then
               (case split_neq [] (remove_spaces pat) of
                  s0 # s1 # rest \<Rightarrow>
                    if length s0 = 0 then
                      (case cmp s1 (snd var) of Inl e \<Rightarrow> Inl e | Inr b \<Rightarrow> Inr (\<not> b))
                    else
                      (let splitPoint = length s0;
                           firstHalf = take splitPoint (snd var);
                           secondHalf = drop splitPoint (snd var)
                       in case cmp s0 firstHalf of
                            Inl e \<Rightarrow> Inl e
                          | Inr a \<Rightarrow>
                              if \<not> a then Inr False
                              else (case cmp s1 secondHalf of
                                      Inl e \<Rightarrow> Inl e
                                    | Inr b \<Rightarrow> Inr (\<not> b)))
                | _ \<Rightarrow> Inl IndexError)
             else cmp pat (snd var))
      else matchVar cmp vars tup)"

subsection \<open>\<open>decode\<close>\<close>

text \<open>
  What \<open>decode\<close> returns: \<open>None\<close>, a string, or the result of \<open>disassemble\<close>.
  The loop \<open>for row in self.entries.keys()\<close> with its reads of \<open>self.entries[row]\<close>
  is the walk through the pairs of the association list, in insertion order.
\<close>

datatype 'r decoded = PyNone | Name string | Disassembled 'r

text \<open>
  The inner loop over the tuples of a row: it starts with \<open>matches = True\<close>, visits
  every tuple (there is no \<open>break\<close>) and clears the flag where \<open>matchVar\<close> is false.
\<close>

fun row_loop ::
  "(string \<Rightarrow> string \<Rightarrow> error + bool) \<Rightarrow> (string \<times> string) list \<Rightarrow> rowkey \<Rightarrow> bool \<Rightarrow> error + bool"
where
  "row_loop cmp vals [] matches = Inr matches"
| "row_loop cmp vals (tup # row) matches =
     (case matchVar cmp vals tup of
        Inl e \<Rightarrow> Inl e
      | Inr b \<Rightarrow> row_loop cmp vals row (if \<not> b then False else matches))"

fun decode :: "('i, 'r) common \<Rightarrow> EncodingTable \<Rightarrow> 'i \<Rightarrow> error + 'r decoded"
and resolve :: "('i, 'r) common \<Rightarrow> entry \<Rightarrow> 'i \<Rightarrow> error + 'r decoded"
and decode_rows ::
  "('i, 'r) common \<Rightarrow> (string \<times> string) list \<Rightarrow> (rowkey \<times> entry) list \<Rightarrow> 'i \<Rightarrow> error + 'r decoded"
where
  "decode c (EncodingTable im ents df) instruction =
     (let vals = assignValues c im instruction in
      case df of
        Some d \<Rightarrow> resolve c d instruction
      | None \<Rightarrow> decode_rows c vals ents instruction)"
| "resolve c (Table t) instruction = decode c t instruction"
| "resolve c (InstructionPage p) instruction = Inr (Disassembled (disassemble c p instruction))"
| "resolve c (Str s) instruction = Inr (Name s)"
| "decode_rows c vals [] instruction = Inr PyNone"
| "decode_rows c vals ((row, target) # ents) instruction =
     (case row_loop (compareWithXs c) vals row True of
        Inl e \<Rightarrow> Inl e
      | Inr matches \<Rightarrow>
          if matches then resolve c target instruction
          else decode_rows c vals ents instruction)"

subsection \<open>Rows that match and rows that do not\<close>

text \<open>
  A row is satisfied when \<open>matchVar\<close> returns \<open>True\<close> for every tuple of it. It is
  rejected when \<open>matchVar\<close> returns for every tuple and returns \<open>False\<close> for one
  of them.
\<close>

definition row_satisfied ::
  "(string \<Rightarrow> string \<Rightarrow> error + bool) \<Rightarrow> (string \<times> string) list \<Rightarrow> rowkey \<Rightarrow> bool"
where
  "row_satisfied cmp vals row = list_all (\<lambda>tup. matchVar cmp vals tup = Inr True) row"

definition row_rejected ::
  "(string \<Rightarrow> string \<Rightarrow> error + bool) \<Rightarrow> (string \<times> string) list \<Rightarrow> rowkey \<Rightarrow> bool"
where
  "row_rejected cmp vals row =
     (list_all (\<lambda>tup. \<not> isl (matchVar cmp vals tup)) row \<and>
      list_ex (\<lambda>tup. matchVar cmp vals tup = Inr False) row)"

subsection \<open>Notions of the statements, and concrete documents\<close>

text \<open>
  For the concrete runs an instruction is given by the values of its variables,
  and the page of an instruction form disassembles to its own path.
\<close>

definition ex_common :: "((string \<times> string) list, string) common" where
  "ex_common =
     \<lparr>compareWithXs = compareWithXs_spec,
      assignValues = (\<lambda>vars instruction. instruction),
      disassemble = (\<lambda>p instruction. p)\<rparr>"

text \<open>
  Three rows on the variable \<open>opc\<close>; the value \<open>10\<close> satisfies the last two, and
  the entry of the second is a nested table on the variable \<open>subop\<close>.
\<close>

definition ex_sub :: EncodingTable where
  "ex_sub =
     EncodingTable [(''subop'', 29, 2)]
       [([(Some ''subop'', Some ''00'')], InstructionPage ''arm/a.xml''),
        ([(Some ''subop'', Some ''x1'')], Str ''B'')]
       None"

definition ex_rows :: EncodingTable where
  "ex_rows =
     EncodingTable [(''opc'', 31, 2)]
       [([(Some ''opc'', Some ''0x'')], Str ''R0''),
        ([(Some ''opc'', Some ''1x'')], Table ex_sub),
        ([(Some ''opc'', None)], Str ''R2'')]
       None"

text \<open>
  The parts of the fragment of an \<open>iclass_sect\<close> that the constructor reads: the
  rows of the table head, the rows of the table body, and the variable names in
  the second row of the head.
\<close>

definition sect_headers :: "xml \<Rightarrow> xml list option" where
  "sect_headers hierarchy =
     (case find_first ''instructiontable'' hierarchy of
        None \<Rightarrow> None
      | Some instructiontable \<Rightarrow>
          (case find_first ''thead'' instructiontable of
             None \<Rightarrow> None
           | Some thead \<Rightarrow> Some (findall ''tr'' thead)))"

definition sect_body :: "xml \<Rightarrow> xml list option" where
  "sect_body hierarchy =
     (case find_first ''instructiontable'' hierarchy of
        None \<Rightarrow> None
      | Some instructiontable \<Rightarrow>
          (case find_first ''tbody'' instructiontable of
             None \<Rightarrow> None
           | Some body \<Rightarrow> Some (findall ''tr'' body)))"

definition header_vars :: "xml list \<Rightarrow> string option list" where
  "header_vars headers = map elem_text (findall ''th'' (headers ! 1))"

text \<open>
  A section carries an \<open>id\<close> other than the wanted one; a section carries an
  \<open>id\<close>, and the constructor returns on it when the \<open>id\<close> is the wanted one.
\<close>

definition other_id :: "string \<Rightarrow> xml \<Rightarrow> bool" where
  "other_id iclass sect =
     (case map_of (attrib sect) ''id'' of None \<Rightarrow> False | Some i \<Rightarrow> i \<noteq> iclass)"

definition builds_or_other_id :: "string \<Rightarrow> string \<Rightarrow> xml \<Rightarrow> bool" where
  "builds_or_other_id path iclass sect =
     (case map_of (attrib sect) ''id'' of
        None \<Rightarrow> False
      | Some i \<Rightarrow> i \<noteq> iclass \<or> \<not> isl (init_sect path sect))"

text \<open>
  The invariant of a table: \<open>directFile\<close> and \<open>entries\<close> are not both populated,
  in the table and in every table below it.
\<close>

fun exclusive :: "EncodingTable \<Rightarrow> bool"
and exclusive_entry :: "entry \<Rightarrow> bool"
and exclusive_entries :: "(rowkey \<times> entry) list \<Rightarrow> bool"
where
  "exclusive (EncodingTable im ents df) =
     ((df = None \<or> ents = []) \<and> exclusive_entries ents \<and>
      (case df of None \<Rightarrow> True | Some d \<Rightarrow> exclusive_entry d))"
| "exclusive_entry (Table t) = exclusive t"
| "exclusive_entry (InstructionPage p) = True"
| "exclusive_entry (Str s) = True"
| "exclusive_entries [] = True"
| "exclusive_entries ((row, target) # ents) = (exclusive_entry target \<and> exclusive_entries ents)"

text \<open>
  The fragment has something to put into the table: a section has a data row, a
  grouping fragment has a node with a \<open>groupname\<close> or an \<open>iclass\<close>.
\<close>

definition produces :: "xml \<Rightarrow> bool \<Rightarrow> bool" where
  "produces hierarchy sect =
     (if sect then sect_body hierarchy \<noteq> Some []
      else list_ex (\<lambda>n. has_attr ''groupname'' n \<or> has_attr ''iclass'' n)
             (findall ''node'' hierarchy))"

text \<open>The pieces of the example documents.\<close>

definition ex_regdiagram :: xml where
  "ex_regdiagram =
     Element ''regdiagram'' [] None
       [Element ''box'' [(''hibit'', ''31''), (''width'', ''2''), (''name'', ''opc'')] None [],
        Element ''box'' [(''hibit'', ''29''), (''width'', ''2''), (''name'', ''subop'')] None [],
        Element ''box'' [(''hibit'', ''27''), (''name'', ''b'')] None [],
        Element ''box'' [(''hibit'', ''26''), (''width'', ''27'')] None []]"

definition ex_thead1 :: xml where
  "ex_thead1 =
     Element ''thead'' [] None
       [Element ''tr'' [] None [Element ''th'' [] (Some ''Instruction'') []]]"

definition ex_thead2 :: xml where
  "ex_thead2 =
     Element ''thead'' [] None
       [Element ''tr'' [] None [Element ''th'' [] (Some ''Decode fields'') []],
        Element ''tr'' [] None [Element ''th'' [] (Some ''subop'') []]]"

definition ex_tr :: "(string \<times> string) list \<Rightarrow> string \<Rightarrow> xml" where
  "ex_tr attrs v = Element ''tr'' attrs None [Element ''td'' [] (Some v) []]"

definition ex_sect :: "string \<Rightarrow> xml \<Rightarrow> xml list \<Rightarrow> xml" where
  "ex_sect i thead rows =
     Element ''iclass_sect'' [(''id'', i)] None
       [ex_regdiagram,
        Element ''instructiontable'' [] None [thead, Element ''tbody'' [] None rows]]"

definition ex_node :: "(string \<times> string) list \<Rightarrow> string \<Rightarrow> xml" where
  "ex_node attrs pattern =
     Element ''node'' attrs None
       [Element ''decode'' [] None
          [Element ''box'' [(''name'', ''opc'')] None [Element ''c'' [] (Some pattern) []]]]"

definition ex_hierarchy :: "xml list \<Rightarrow> xml" where
  "ex_hierarchy nodes = Element ''hierarchy'' [] None (ex_regdiagram # nodes)"

definition ex_vars :: variables where
  "ex_vars = [(''opc'', 31, 2), (''subop'', 29, 2), (''b'', 27, 1)]"

text \<open>
  The two-level document of the specification's last testable property: a node
  with the constraint \<open>(opc, 1x)\<close> that refers to a table with the rows
  \<open>subop = 00\<close> and \<open>subop = x1\<close>.
\<close>

definition ex_leaf :: xml where
  "ex_leaf =
     ex_sect ''ldst'' ex_thead2
       [ex_tr [(''encname'', ''A''), (''iformfile'', ''a.xml'')] ''00'',
        ex_tr [(''encname'', ''B'')] ''x1'']"

definition ex_doc :: xml where
  "ex_doc =
     Element ''encodingindex'' [] None
       [ex_hierarchy [ex_node [(''iclass'', ''ldst'')] ''1x''], ex_leaf]"

text \<open>A table with the two header rows and one data row.\<close>

definition ex_leaf_one_row :: xml where
  "ex_leaf_one_row = ex_sect ''one'' ex_thead2 [ex_tr [(''encname'', ''A'')] ''00'']"

text \<open>A table with one header row.\<close>

definition ex_leaf_single :: xml where
  "ex_leaf_single =
     ex_sect ''single'' ex_thead1
       [ex_tr [(''encname'', ''A''), (''iformfile'', ''a.xml'')] ''A'']"

text \<open>A table whose first and third data rows have the same key.\<close>

definition ex_leaf_same_key :: xml where
  "ex_leaf_same_key =
     ex_sect ''rows'' ex_thead2
       [ex_tr [(''encname'', ''A'')] ''00'',
        ex_tr [(''encname'', ''B'')] ''01'',
        ex_tr [(''encname'', ''C'')] ''00'']"

text \<open>A document whose node refers to a section that does not exist.\<close>

definition ex_doc_absent :: xml where
  "ex_doc_absent =
     Element ''encodingindex'' [] None
       [ex_hierarchy [ex_node [(''iclass'', ''absent'')] ''1x''], ex_leaf]"

text \<open>A document with two sections of the same \<open>id\<close>.\<close>

definition ex_doc_twice :: xml where
  "ex_doc_twice =
     Element ''encodingindex'' [] None
       [ex_hierarchy [ex_node [(''iclass'', ''dup'')] ''1x''],
        ex_sect ''dup'' ex_thead1 [ex_tr [(''encname'', ''FIRST'')] ''F''],
        ex_sect ''dup'' ex_thead1 [ex_tr [(''encname'', ''SECOND'')] ''S'']]"

section \<open>Properties\<close>

subsection \<open>Helper lemmas\<close>

lemma split_neq_nonempty: "split_neq acc s \<noteq> []"
  by (induction acc s rule: split_neq.induct) auto

text \<open>A pattern that contains the operator splits into at least two pieces.\<close>

lemma split_neq_two: "contains_neq s \<Longrightarrow> \<exists>a b r. split_neq acc s = a # b # r"
proof (induction acc s rule: split_neq.induct)
  case (1 acc a b s)
  show ?case
  proof (cases "a = CHR ''!'' \<and> b = CHR ''=''")
    case True
    obtain x xs where "split_neq [] s = x # xs"
      using split_neq_nonempty [of "[]" s] by (cases "split_neq [] s") auto
    with True show ?thesis by simp
  next
    case False
    with 1 show ?thesis by auto
  qed
qed auto

lemma row_loop_total:
  "\<forall>tup\<in>set row. \<not> isl (matchVar cmp vals tup) \<Longrightarrow>
   row_loop cmp vals row m = Inr (m \<and> (\<forall>tup\<in>set row. matchVar cmp vals tup = Inr True))"
proof (induction row arbitrary: m)
  case Nil
  then show ?case by simp
next
  case (Cons tup row)
  then obtain b where b: "matchVar cmp vals tup = Inr b"
    by (cases "matchVar cmp vals tup") auto
  with Cons show ?case by (cases b) auto
qed

lemma row_loop_satisfied: "row_satisfied cmp vals row \<Longrightarrow> row_loop cmp vals row True = Inr True"
  using row_loop_total [of row cmp vals True]
  by (auto simp: row_satisfied_def list_all_iff)

lemma row_loop_rejected: "row_rejected cmp vals row \<Longrightarrow> row_loop cmp vals row True = Inr False"
proof -
  assume r: "row_rejected cmp vals row"
  then have "\<forall>tup\<in>set row. \<not> isl (matchVar cmp vals tup)"
    by (simp add: row_rejected_def list_all_iff)
  then have "row_loop cmp vals row True = Inr (\<forall>tup\<in>set row. matchVar cmp vals tup = Inr True)"
    using row_loop_total [of row cmp vals True] by simp
  moreover from r obtain tup where "tup \<in> set row" "matchVar cmp vals tup = Inr False"
    by (auto simp: row_rejected_def list_ex_iff)
  then have "\<not> (\<forall>tup\<in>set row. matchVar cmp vals tup = Inr True)"
    by force
  ultimately show ?thesis by simp
qed

lemma decode_rows_first:
  assumes "list_all (\<lambda>(r, x). row_rejected (compareWithXs c) vals r) pre"
    and "row_satisfied (compareWithXs c) vals r1"
  shows "decode_rows c vals (pre @ (r1, target) # post) instr = resolve c target instr"
  using assms
  by (induction pre) (auto simp: row_loop_rejected row_loop_satisfied)

lemma decode_rows_none:
  assumes "list_all (\<lambda>(r, x). row_rejected (compareWithXs c) vals r) ents"
  shows "decode_rows c vals ents instr = Inr PyNone"
  using assms by (induction ents) (auto simp: row_loop_rejected)

lemma dict_set_keys: "fst ` set (dict_set d k v) = insert k (fst ` set d)"
  by (induction d) (force split: if_splits)+

lemma dict_set_distinct: "distinct (map fst d) \<Longrightarrow> distinct (map fst (dict_set d k v))"
  by (induction d) (auto simp: dict_set_keys)

lemma map_of_dict_set: "map_of (dict_set d k v) = (map_of d)(k \<mapsto> v)"
  by (induction d) auto

lemma dict_set_twice: "dict_set (dict_set d k v) k w = dict_set d k w"
  by (induction d) auto

lemma dict_set_subset: "set (dict_set d k v) \<subseteq> insert (k, v) (set d)"
  by (induction d) (auto split: if_splits)

lemma dict_set_nonempty: "dict_set d k v \<noteq> []"
  by (cases d) (auto split: if_splits)

lemma find_first_findall:
  "find_first t e = (case findall t e of [] \<Rightarrow> None | x # xs \<Rightarrow> Some x)"
proof -
  have "List.find P cs = (case filter P cs of [] \<Rightarrow> None | x # xs \<Rightarrow> Some x)"
    for P :: "xml \<Rightarrow> bool" and cs
    by (induction cs) auto
  then show ?thesis by (simp add: find_first_def findall_def)
qed

text \<open>What a successful run of the constructor on an \<open>iclass_sect\<close> has done.\<close>

lemma init_sect_cases:
  assumes "init_sect path hierarchy = Inr t"
  shows "\<exists>im headers rows.
           build_mapping hierarchy = Inr im \<and>
           sect_headers hierarchy = Some headers \<and>
           sect_body hierarchy = Some rows \<and>
           (if length headers = 1
            then \<exists>tr rest target. rows = tr # rest \<and> row_target path tr = Inr target \<and>
                   t = EncodingTable im [] (Some target)
            else \<exists>ents. sect_rows path (header_vars headers) rows [] = Inr ents \<and>
                   t = EncodingTable im ents None)"
  using assms
  unfolding init_sect_def sect_headers_def sect_body_def header_vars_def Let_def
  by (auto split: sum.splits option.splits if_splits list.splits simp: find_first_findall)

lemma row_entry_key:
  "row_entry path tv tr = Inr (m, tg) \<longleftrightarrow>
     row_mapping tv (findall ''td'' tr) = Inr m \<and> row_target path tr = Inr tg"
  by (auto simp: row_entry_def split: sum.splits)

lemma sect_rows_keys:
  "sect_rows path tv rows ents = Inr out \<Longrightarrow>
     fst ` set ents \<subseteq> fst ` set out \<and>
     (\<forall>tr\<in>set rows. \<exists>m tg. row_entry path tv tr = Inr (m, tg) \<and> m \<in> fst ` set out)"
proof (induction rows arbitrary: ents)
  case Nil
  then show ?case by simp
next
  case (Cons tr rows)
  from Cons.prems obtain m tg where e: "row_entry path tv tr = Inr (m, tg)"
    and r: "sect_rows path tv rows (dict_set ents m tg) = Inr out"
    by (auto split: sum.splits)
  from Cons.IH [OF r] have "fst ` set (dict_set ents m tg) \<subseteq> fst ` set out"
    and "\<forall>tr\<in>set rows. \<exists>m tg. row_entry path tv tr = Inr (m, tg) \<and> m \<in> fst ` set out"
    by blast+
  with e show ?case by (auto simp: dict_set_keys)
qed

lemma sect_rows_append:
  "sect_rows path tv (xs @ ys) ents =
     (case sect_rows path tv xs ents of Inl e \<Rightarrow> Inl e | Inr mid \<Rightarrow> sect_rows path tv ys mid)"
  by (induction xs arbitrary: ents) (auto split: sum.splits)

lemma sect_rows_distinct:
  "sect_rows path tv rows ents = Inr out \<Longrightarrow> distinct (map fst ents) \<Longrightarrow> distinct (map fst out)"
  by (induction rows arbitrary: ents) (auto split: sum.splits simp: dict_set_distinct)

lemma sect_rows_other_keys:
  "sect_rows path tv rows ents = Inr out \<Longrightarrow>
   \<forall>tr\<in>set rows. row_mapping tv (findall ''td'' tr) \<noteq> Inr k \<Longrightarrow>
   map_of out k = map_of ents k"
proof (induction rows arbitrary: ents)
  case Nil
  then show ?case by simp
next
  case (Cons tr rows)
  from Cons.prems(1) obtain m tg where e: "row_entry path tv tr = Inr (m, tg)"
    and r: "sect_rows path tv rows (dict_set ents m tg) = Inr out"
    by (auto split: sum.splits)
  from e Cons.prems(2) have "m \<noteq> k" by (auto simp: row_entry_key)
  moreover have "map_of out k = map_of (dict_set ents m tg) k"
    using Cons.IH [OF r] Cons.prems(2) by simp
  ultimately show ?case by (simp add: map_of_dict_set)
qed

lemma distinct_count_one:
  "distinct (map fst d) \<Longrightarrow> map_of d k = Some v \<Longrightarrow> length (filter (\<lambda>e. fst e = k) d) = 1"
proof (induction d)
  case Nil
  then show ?case by simp
next
  case (Cons a d)
  show ?case
  proof (cases "fst a = k")
    case True
    with Cons.prems have "filter (\<lambda>e. fst e = k) d = []"
      by (force simp: filter_empty_conv image_iff)
    with True show ?thesis by simp
  next
    case False
    with Cons show ?thesis by (cases a) auto
  qed
qed

lemma sect_loop_absent:
  "list_all (other_id iclass) sects \<Longrightarrow>
   sect_loop path sects iclass mapping (found, ents) = Inr (found, ents)"
  by (induction sects) (auto simp: other_id_def get_attr_def split: option.splits)

lemma sect_loop_other_keys:
  "sect_loop path sects iclass mapping (found, ents) = Inr (found', ents') \<Longrightarrow>
   mapping \<noteq> k \<Longrightarrow> map_of ents' k = map_of ents k"
proof (induction sects arbitrary: found ents)
  case Nil
  then show ?case by simp
next
  case (Cons s sects)
  then show ?case
    by (auto split: sum.splits if_splits simp: map_of_dict_set)
qed

lemma sect_loop_prefix:
  "list_all (builds_or_other_id path iclass) pre \<Longrightarrow>
   \<exists>found' ents'.
     sect_loop path (pre @ rest) iclass mapping (found, ents)
       = sect_loop path rest iclass mapping (found', ents') \<and>
     (\<forall>v. dict_set ents' mapping v = dict_set ents mapping v)"
proof (induction pre arbitrary: found ents)
  case Nil
  then show ?case by auto
next
  case (Cons s pre)
  from Cons.prems have s: "builds_or_other_id path iclass s"
    and pre: "list_all (builds_or_other_id path iclass) pre"
    by simp_all
  from s obtain i where i: "map_of (attrib s) ''id'' = Some i"
    and ok: "i \<noteq> iclass \<or> \<not> isl (init_sect path s)"
    by (auto simp: builds_or_other_id_def split: option.splits)
  show ?case
  proof (cases "i = iclass")
    case False
    with i Cons.IH [OF pre, of found ents] show ?thesis
      by (simp add: get_attr_def)
  next
    case True
    with ok obtain t where t: "init_sect path s = Inr t"
      by (cases "init_sect path s") auto
    from Cons.IH [OF pre, of True "dict_set ents mapping (Table t)"]
    obtain found' ents' where
      "sect_loop path (pre @ rest) iclass mapping (True, dict_set ents mapping (Table t))
         = sect_loop path rest iclass mapping (found', ents')"
      and "\<forall>v. dict_set ents' mapping v = dict_set (dict_set ents mapping (Table t)) mapping v"
      by blast
    with True i t show ?thesis
      by (auto simp: get_attr_def dict_set_twice)
  qed
qed

lemma sect_loop_last:
  assumes "list_all (builds_or_other_id path iclass) pre"
    and "map_of (attrib sect) ''id'' = Some iclass"
    and "init_sect path sect = Inr t"
    and "list_all (other_id iclass) post"
  shows "sect_loop path (pre @ sect # post) iclass mapping (found, ents)
           = Inr (True, dict_set ents mapping (Table t))"
proof -
  from sect_loop_prefix [OF assms(1), of "sect # post" mapping found ents]
  obtain found' ents' where
    "sect_loop path (pre @ sect # post) iclass mapping (found, ents)
       = sect_loop path (sect # post) iclass mapping (found', ents')"
    and "\<forall>v. dict_set ents' mapping v = dict_set ents mapping v"
    by blast
  with assms(2,3) sect_loop_absent [OF assms(4)] show ?thesis
    by (simp add: get_attr_def)
qed

lemma init_nodes_other_keys:
  "init_nodes path root nodes ents = Inr out \<Longrightarrow>
   list_all (\<lambda>n. node_mapping n \<noteq> Inr k) nodes \<Longrightarrow>
   map_of out k = map_of ents k"
proof (induction nodes arbitrary: ents)
  case Nil
  then show ?case by simp
next
  case (Cons n nodes)
  from Cons.prems obtain m where m: "node_mapping n = Inr m" and mk: "m \<noteq> k"
    and rest: "list_all (\<lambda>n. node_mapping n \<noteq> Inr k) nodes"
    by (cases "node_mapping n") auto
  from Cons.prems(1) m obtain mid where
    mid: "init_nodes path root nodes mid = Inr out" and keep: "map_of mid k = map_of ents k"
    using mk
    by (auto split: sum.splits if_splits option.splits
        simp: map_of_dict_set dest: sect_loop_other_keys)
  from Cons.IH [OF mid rest] keep show ?case by simp
qed

lemma init_nodes_keeps:
  assumes "init_nodes path root nodes (dict_set ents m v) = Inr out"
    and "list_all (\<lambda>n. node_mapping n \<noteq> Inr m) nodes"
  shows "map_of out m = Some v"
  using init_nodes_other_keys [OF assms] by (simp add: map_of_dict_set)

lemma row_target_exclusive: "row_target path tr = Inr x \<Longrightarrow> exclusive_entry x"
  by (auto simp: row_target_def split: option.splits sum.splits)

lemma exclusive_entries_iff: "exclusive_entries ents \<longleftrightarrow> (\<forall>e\<in>set ents. exclusive_entry (snd e))"
  by (induction ents) auto

lemma exclusive_dict_set:
  "exclusive_entries ents \<Longrightarrow> exclusive_entry v \<Longrightarrow> exclusive_entries (dict_set ents k v)"
  using dict_set_subset [of ents k v] by (auto simp: exclusive_entries_iff)

lemma sect_rows_exclusive:
  "sect_rows path tv rows ents = Inr out \<Longrightarrow> exclusive_entries ents \<Longrightarrow> exclusive_entries out"
proof (induction rows arbitrary: ents)
  case Nil
  then show ?case by simp
next
  case (Cons tr rows)
  then show ?case
    by (auto split: sum.splits simp: row_entry_key exclusive_dict_set row_target_exclusive)
qed

lemma init_sect_exclusive: "init_sect path hierarchy = Inr t \<Longrightarrow> exclusive t"
  using init_sect_cases [of path hierarchy t] sect_rows_exclusive [of path _ _ "[]"]
  by (auto split: if_splits simp: row_target_exclusive)

lemma sect_loop_exclusive:
  "sect_loop path sects iclass mapping (found, ents) = Inr (found', ents') \<Longrightarrow>
   exclusive_entries ents \<Longrightarrow> exclusive_entries ents'"
proof (induction sects arbitrary: found ents)
  case Nil
  then show ?case by simp
next
  case (Cons s sects)
  then show ?case
    by (auto split: sum.splits if_splits simp: exclusive_dict_set init_sect_exclusive)
qed

lemma init_exclusive:
  "(\<forall>out. init_nodes path root nodes ents = Inr out \<longrightarrow> exclusive_entries ents \<longrightarrow>
      exclusive_entries out)"
  "(\<forall>t. init_node path root hierarchy = Inr t \<longrightarrow> exclusive t)"
proof (induction path root nodes ents and path root hierarchy rule: init_nodes_init_node.induct)
  case (1 path root ents)
  then show ?case by simp
next
  case (2 path root node nodes ents)
  show ?case
  proof (intro allI impI)
    fix out
    assume run: "init_nodes path root (node # nodes) ents = Inr out"
      and ex: "exclusive_entries ents"
    from run obtain mapping where m: "node_mapping node = Inr mapping"
      by (cases "node_mapping node") auto
    show "exclusive_entries out"
    proof (cases "has_attr ''groupname'' node")
      case True
      with run m obtain t where t: "init_node path root node = Inr t"
        and rest: "init_nodes path root nodes (dict_set ents mapping (Table t)) = Inr out"
        by (auto split: sum.splits)
      from "2.IH"(1) [OF m True] t have "exclusive t" by blast
      with ex have "exclusive_entries (dict_set ents mapping (Table t))"
        by (simp add: exclusive_dict_set)
      with "2.IH"(2) [OF m True t] rest show ?thesis by blast
    next
      case False
      show ?thesis
      proof (cases "map_of (attrib node) ''iclass''")
        case None
        with run m False "2.IH"(3) [OF m False None] ex show ?thesis by simp
      next
        case (Some iclass)
        with run m False obtain found ents' where
          loop: "sect_loop path (findall_deep ''iclass_sect'' root) iclass mapping (False, ents)
                   = Inr (found, ents')"
          and rest: "init_nodes path root nodes
                   (if \<not> found then dict_set ents' mapping (Str iclass) else ents') = Inr out"
          by (auto split: sum.splits)
        from sect_loop_exclusive [OF loop ex]
        have "exclusive_entries (if \<not> found then dict_set ents' mapping (Str iclass) else ents')"
          by (simp add: exclusive_dict_set)
        with "2.IH"(4) [OF m False Some loop refl] rest show ?thesis by blast
      qed
    qed
  qed
next
  case (3 path root hierarchy)
  then show ?case
    by (auto split: sum.splits)
qed

lemma sect_rows_nonempty:
  "sect_rows path tv rows ents = Inr out \<Longrightarrow> rows \<noteq> [] \<or> ents \<noteq> [] \<Longrightarrow> out \<noteq> []"
proof (induction rows arbitrary: ents)
  case Nil
  then show ?case by simp
next
  case (Cons tr rows)
  from Cons.prems(1) obtain m tg where
    "sect_rows path tv rows (dict_set ents m tg) = Inr out"
    by (auto split: sum.splits)
  from Cons.IH [OF this] show ?case by (simp add: dict_set_nonempty)
qed

lemma sect_loop_nonempty:
  "sect_loop path sects iclass mapping (found, ents) = Inr (found', ents') \<Longrightarrow>
   (ents \<noteq> [] \<longrightarrow> ents' \<noteq> []) \<and> (found' \<longrightarrow> found \<or> ents' \<noteq> [])"
proof (induction sects arbitrary: found ents)
  case Nil
  then show ?case by simp
next
  case (Cons s sects)
  from Cons.prems obtain i where i: "get_attr ''id'' s = Inr i"
    by (cases "get_attr ''id'' s") auto
  show ?case
  proof (cases "i = iclass")
    case True
    with Cons.prems i obtain t where
      "sect_loop path sects iclass mapping (True, dict_set ents mapping (Table t))
         = Inr (found', ents')"
      by (auto split: sum.splits)
    from Cons.IH [OF this] show ?thesis by (simp add: dict_set_nonempty)
  next
    case False
    with Cons.prems i have "sect_loop path sects iclass mapping (found, ents) = Inr (found', ents')"
      by simp
    from Cons.IH [OF this] show ?thesis .
  qed
qed

lemma init_nodes_nonempty:
  "init_nodes path root nodes ents = Inr out \<Longrightarrow>
   ents \<noteq> [] \<or> list_ex (\<lambda>n. has_attr ''groupname'' n \<or> has_attr ''iclass'' n) nodes \<Longrightarrow>
   out \<noteq> []"
proof (induction nodes arbitrary: ents)
  case Nil
  then show ?case by simp
next
  case (Cons n nodes)
  from Cons.prems(1) obtain mapping where m: "node_mapping n = Inr mapping"
    by (cases "node_mapping n") auto
  show ?case
  proof (cases "has_attr ''groupname'' n")
    case True
    with Cons.prems(1) m obtain t where
      "init_nodes path root nodes (dict_set ents mapping (Table t)) = Inr out"
      by (auto split: sum.splits)
    from Cons.IH [OF this] show ?thesis by (simp add: dict_set_nonempty)
  next
    case False
    show ?thesis
    proof (cases "map_of (attrib n) ''iclass''")
      case None
      with False Cons.prems m have "init_nodes path root nodes ents = Inr out"
        and "ents \<noteq> [] \<or> list_ex (\<lambda>n. has_attr ''groupname'' n \<or> has_attr ''iclass'' n) nodes"
        by (auto simp: has_attr_def)
      then show ?thesis by (rule Cons.IH)
    next
      case (Some iclass)
      with False Cons.prems(1) m obtain found ents' where
        loop: "sect_loop path (findall_deep ''iclass_sect'' root) iclass mapping (False, ents)
                 = Inr (found, ents')"
        and rest: "init_nodes path root nodes
                 (if \<not> found then dict_set ents' mapping (Str iclass) else ents') = Inr out"
        by (auto split: sum.splits)
      from sect_loop_nonempty [OF loop]
      have "(if \<not> found then dict_set ents' mapping (Str iclass) else ents') \<noteq> []"
        by (simp add: dict_set_nonempty)
      with Cons.IH [OF rest] show ?thesis by simp
    qed
  qed
qed

text \<open>
  The keys of a table that the constructor returns are pairwise distinct, so the
  value paired with a key in \<open>entries\<close> is the value that \<open>self.entries[row]\<close>
  reads.
\<close>

lemma sect_loop_distinct:
  "sect_loop path sects iclass mapping (found, ents) = Inr (found', ents') \<Longrightarrow>
   distinct (map fst ents) \<Longrightarrow> distinct (map fst ents')"
proof (induction sects arbitrary: found ents)
  case Nil
  then show ?case by simp
next
  case (Cons s sects)
  then show ?case
    by (auto split: sum.splits if_splits simp: dict_set_distinct)
qed

lemma init_nodes_distinct:
  "init_nodes path root nodes ents = Inr out \<Longrightarrow>
   distinct (map fst ents) \<Longrightarrow> distinct (map fst out)"
proof (induction nodes arbitrary: ents)
  case Nil
  then show ?case by simp
next
  case (Cons n nodes)
  from Cons.prems(1) obtain mid where "init_nodes path root nodes mid = Inr out"
    and "distinct (map fst mid)"
    using Cons.prems(2)
    by (auto split: sum.splits if_splits option.splits
        simp: dict_set_distinct dest: sect_loop_distinct)
  then show ?case by (rule Cons.IH)
qed

lemma init_distinct:
  assumes "EncodingTable_init path root hierarchy sect = Inr t"
  shows "distinct (map fst (entries t))"
proof (cases sect)
  case True
  with assms have "init_sect path hierarchy = Inr t"
    by (simp add: EncodingTable_init_def)
  from init_sect_cases [OF this] sect_rows_distinct [of path _ _ "[]" "entries t"]
  show ?thesis by (auto split: if_splits)
next
  case False
  with assms have "init_node path root hierarchy = Inr t"
    by (simp add: EncodingTable_init_def)
  then show ?thesis
    using init_nodes_distinct [of path root "findall ''node'' hierarchy" "[]"]
    by (auto split: sum.splits)
qed

lemma entries_lookup:
  assumes "EncodingTable_init path root hierarchy sect = Inr t"
    and "(row, target) \<in> set (entries t)"
  shows "map_of (entries t) row = Some target"
  using init_distinct [OF assms(1)] assms(2) by simp

lemma sect_rows_origin:
  "sect_rows path tv rows ents = Inr out \<Longrightarrow>
   \<forall>e\<in>set out. e \<in> set ents \<or> (\<exists>tr\<in>set rows. row_entry path tv tr = Inr e)"
proof (induction rows arbitrary: ents)
  case Nil
  then show ?case by simp
next
  case (Cons tr rows)
  from Cons.prems obtain m tg where e: "row_entry path tv tr = Inr (m, tg)"
    and r: "sect_rows path tv rows (dict_set ents m tg) = Inr out"
    by (auto split: sum.splits)
  from Cons.IH [OF r] dict_set_subset [of ents m tg] e show ?case
    by fastforce
qed

lemma sect_rows_last:
  assumes "sect_rows path tv (xs @ tr # zs) ents = Inr out"
    and "row_entry path tv tr = Inr (mapping, target)"
    and "list_all (\<lambda>r. row_mapping tv (findall ''td'' r) \<noteq> Inr mapping) zs"
  shows "map_of out mapping = Some target"
proof -
  from assms(1) obtain mid where "sect_rows path tv (tr # zs) mid = Inr out"
    unfolding sect_rows_append [of path tv xs]
    by (auto split: sum.splits)
  with assms(2) have z: "sect_rows path tv zs (dict_set mid mapping target) = Inr out"
    by simp
  have "map_of out mapping = map_of (dict_set mid mapping target) mapping"
    using sect_rows_other_keys [OF z] assms(3) by (simp add: list_all_iff)
  then show ?thesis by (simp add: map_of_dict_set)
qed

subsection \<open>Constraint matching\<close>

text \<open>
  C5. When the variable named by the tuple does not occur among the extracted
  values, \<open>matchVar\<close> returns \<open>False\<close>, whatever the pattern is (the \<open>None\<close>
  pattern included) and whatever the comparison does; it does not raise.
\<close>

theorem matchVar_absent:
  "fst tup \<notin> Some ` fst ` set vars \<Longrightarrow> matchVar cmp vars tup = Inr False"
  by (induction vars) auto

theorem matchVar_absent_witness:
  "Some ''subop'' \<notin> Some ` fst ` set [(''opc'', ''10'')] \<and>
   matchVar compareWithXs_spec [(''opc'', ''10'')] (Some ''subop'', None) = Inr False"
proof -
  have h: "fst (Some ''subop'', None :: string option) \<notin> Some ` fst ` set [(''opc'', ''10'')]"
    by simp
  show ?thesis
    using h matchVar_absent [OF h, of compareWithXs_spec] by simp
qed

text \<open>
  C4. When the pattern of the tuple is \<open>None\<close> and the variable occurs among the
  extracted values, \<open>matchVar\<close> returns \<open>True\<close>, whatever the value is.
\<close>

theorem matchVar_no_constraint:
  "f \<in> fst ` set vars \<Longrightarrow> matchVar cmp vars (Some f, None) = Inr True"
  by (induction vars) auto

theorem matchVar_no_constraint_witness:
  "''opc'' \<in> fst ` set [(''subop'', ''0''), (''opc'', ''10'')] \<and>
   matchVar compareWithXs_spec [(''subop'', ''0''), (''opc'', ''10'')] (Some ''opc'', None)
     = Inr True"
proof -
  have h: "''opc'' \<in> fst ` set [(''subop'', ''0''), (''opc'', ''10'')]"
    by simp
  show ?thesis
    using h matchVar_no_constraint [OF h, of compareWithXs_spec] by simp
qed

text \<open>
  C2. Let the pattern contain \<open>!=\<close>, let \<open>A\<close> and \<open>B\<close> be the first two pieces of
  the pattern split at \<open>!=\<close> after its spaces are removed, and let \<open>v\<close> be the
  extracted value of the variable. If \<open>A\<close> is empty, the constraint succeeds iff
  \<open>v\<close> does not match \<open>B\<close>. If \<open>A\<close> has length \<open>k > 0\<close>, it succeeds iff the first
  \<open>k\<close> characters of \<open>v\<close> match \<open>A\<close> and the rest of \<open>v\<close> does not match \<open>B\<close>.
  The comparison is any function that returns on these arguments.
\<close>

theorem matchVar_negated:
  assumes "map_of vars f = Some v"
    and "contains_neq pat"
    and "split_neq [] (remove_spaces pat) = A # B # rest"
  shows "(A = [] \<longrightarrow> (\<forall>b. cmp B v = Inr b \<longrightarrow>
            matchVar cmp vars (Some f, Some pat) = Inr (\<not> b))) \<and>
         (A \<noteq> [] \<longrightarrow> (\<forall>a b. cmp A (take (length A) v) = Inr a \<longrightarrow>
            cmp B (drop (length A) v) = Inr b \<longrightarrow>
            matchVar cmp vars (Some f, Some pat) = Inr (a \<and> \<not> b)))"
  using assms by (induction vars) (auto split: if_splits)

theorem matchVar_negated_witness:
  "map_of [(''op'', ''0110'')] ''op'' = Some ''0110'' \<and>
   contains_neq ''01 != 1x'' \<and>
   split_neq [] (remove_spaces ''01 != 1x'') = [''01'', ''1x''] \<and>
   compareWithXs_spec ''01'' (take 2 ''0110'') = Inr True \<and>
   compareWithXs_spec ''1x'' (drop 2 ''0110'') = Inr True \<and>
   matchVar compareWithXs_spec [(''op'', ''0110'')] (Some ''op'', Some ''01 != 1x'') = Inr False"
proof -
  have h1: "map_of [(''op'', ''0110'')] ''op'' = Some ''0110''"
    by simp
  have h2: "contains_neq ''01 != 1x''"
    by simp
  have h3: "split_neq [] (remove_spaces ''01 != 1x'') = [''01'', ''1x'']"
    by (simp add: remove_spaces_def)
  have h4: "compareWithXs_spec ''01'' (take 2 ''0110'') = Inr True"
    by (simp add: compareWithXs_spec_def)
  have h5: "compareWithXs_spec ''1x'' (drop 2 ''0110'') = Inr True"
    by (simp add: compareWithXs_spec_def)
  have "matchVar compareWithXs_spec [(''op'', ''0110'')] (Some ''op'', Some ''01 != 1x'')
          = Inr (True \<and> \<not> True)"
    using matchVar_negated [OF h1 h2 h3, of compareWithXs_spec] h4 h5
    by (auto simp del: matchVar.simps)
  with h1 h2 h3 h4 h5 show ?thesis by simp
qed

subsection \<open>Traversal\<close>

text \<open>
  C1. In a table without \<open>directFile\<close>, the rows are tried in the order of
  \<open>entries\<close>, and \<open>decode\<close> returns the target of the first satisfied row: when
  every row before \<open>r1\<close> is rejected and \<open>r1\<close> is satisfied, the result is what
  decoding the instruction in the nested table returns when the target of \<open>r1\<close> is
  a table, the disassembly of the instruction by the page when it is a page, and
  the string itself when it is a string. The rows after \<open>r1\<close> play no part,
  satisfied or not.
\<close>

theorem decode_first_match:
  assumes "directFile t = None"
    and "entries t = pre @ (r1, target) # post"
    and "list_all (\<lambda>(r, x). row_rejected (compareWithXs c)
            (assignValues c (instructionMapping t) instr) r) pre"
    and "row_satisfied (compareWithXs c) (assignValues c (instructionMapping t) instr) r1"
  shows "decode c t instr =
           (case target of
              Table sub \<Rightarrow> decode c sub instr
            | InstructionPage p \<Rightarrow> Inr (Disassembled (disassemble c p instr))
            | Str s \<Rightarrow> Inr (Name s))"
proof -
  have "decode c t instr = resolve c target instr"
    using assms decode_rows_first [of c "assignValues c (instructionMapping t) instr" pre r1]
    by (cases t) simp
  then show ?thesis by (cases target) simp_all
qed

theorem decode_first_match_witness:
  "directFile ex_rows = None \<and>
   entries ex_rows =
     [([(Some ''opc'', Some ''0x'')], Str ''R0'')] @
     ([(Some ''opc'', Some ''1x'')], Table ex_sub) # [([(Some ''opc'', None)], Str ''R2'')] \<and>
   row_rejected compareWithXs_spec [(''opc'', ''10''), (''subop'', ''01'')]
     [(Some ''opc'', Some ''0x'')] \<and>
   row_satisfied compareWithXs_spec [(''opc'', ''10''), (''subop'', ''01'')]
     [(Some ''opc'', Some ''1x'')] \<and>
   row_satisfied compareWithXs_spec [(''opc'', ''10''), (''subop'', ''01'')]
     [(Some ''opc'', None)] \<and>
   decode ex_common ex_sub [(''opc'', ''10''), (''subop'', ''01'')] = Inr (Name ''B'') \<and>
   decode ex_common ex_rows [(''opc'', ''10''), (''subop'', ''01'')] = Inr (Name ''B'')"
proof -
  let ?i = "[(''opc'', ''10''), (''subop'', ''01'')]"
  have h1: "directFile ex_rows = None"
    by (simp add: ex_rows_def)
  have h2: "entries ex_rows =
     [([(Some ''opc'', Some ''0x'')], Str ''R0'')] @
     ([(Some ''opc'', Some ''1x'')], Table ex_sub) # [([(Some ''opc'', None)], Str ''R2'')]"
    by (simp add: ex_rows_def)
  have r0: "row_rejected compareWithXs_spec ?i [(Some ''opc'', Some ''0x'')]"
    by (simp add: row_rejected_def compareWithXs_spec_def)
  have r1: "row_satisfied compareWithXs_spec ?i [(Some ''opc'', Some ''1x'')]"
    by (simp add: row_satisfied_def compareWithXs_spec_def)
  have r2: "row_satisfied compareWithXs_spec ?i [(Some ''opc'', None)]"
    by (simp add: row_satisfied_def)
  have h3: "list_all (\<lambda>(r, x). row_rejected (compareWithXs ex_common)
              (assignValues ex_common (instructionMapping ex_rows) ?i) r)
              [([(Some ''opc'', Some ''0x'')], Str ''R0'')]"
    using r0 by (simp add: ex_common_def)
  have h4: "row_satisfied (compareWithXs ex_common)
              (assignValues ex_common (instructionMapping ex_rows) ?i)
              [(Some ''opc'', Some ''1x'')]"
    using r1 by (simp add: ex_common_def)
  have sub: "decode ex_common ex_sub ?i = Inr (Name ''B'')"
    by code_simp
  have "decode ex_common ex_rows ?i = decode ex_common ex_sub ?i"
    using decode_first_match [OF h1 h2 h3 h4] by simp
  with sub have c: "decode ex_common ex_rows ?i = Inr (Name ''B'')"
    by simp
  show ?thesis
    by (intro conjI h1 h2 r0 r1 r2 sub c)
qed

text \<open>
  C6. In a table without \<open>directFile\<close>, when every row is rejected by the
  extracted values, \<open>decode\<close> returns \<open>None\<close>: a value, not an exception.
\<close>

theorem decode_no_match:
  assumes "directFile t = None"
    and "list_all (\<lambda>(r, x). row_rejected (compareWithXs c)
            (assignValues c (instructionMapping t) instr) r) (entries t)"
  shows "decode c t instr = Inr PyNone"
  using assms decode_rows_none [of c "assignValues c (instructionMapping t) instr" "entries t"]
  by (cases t) simp

theorem decode_no_match_witness:
  "directFile
     (EncodingTable [(''opc'', 31, 2)]
        [([(Some ''opc'', Some ''1x'')], Str ''R1''), ([(Some ''op'', None)], Str ''R2'')] None)
     = None \<and>
   list_all (\<lambda>(r, x). row_rejected compareWithXs_spec [(''opc'', ''01'')] r)
     [([(Some ''opc'', Some ''1x'')], Str ''R1''), ([(Some ''op'', None)], Str ''R2'')] \<and>
   decode ex_common
     (EncodingTable [(''opc'', 31, 2)]
        [([(Some ''opc'', Some ''1x'')], Str ''R1''), ([(Some ''op'', None)], Str ''R2'')] None)
     [(''opc'', ''01'')] = Inr PyNone"
proof -
  let ?t = "EncodingTable [(''opc'', 31, 2)]
        [([(Some ''opc'', Some ''1x'')], Str ''R1''), ([(Some ''op'', None)], Str ''R2'')] None"
  have h1: "directFile ?t = None"
    by simp
  have r: "list_all (\<lambda>(r, x). row_rejected compareWithXs_spec [(''opc'', ''01'')] r)
     [([(Some ''opc'', Some ''1x'')], Str ''R1''), ([(Some ''op'', None)], Str ''R2'')]"
    by (simp add: row_rejected_def compareWithXs_spec_def)
  have h2: "list_all (\<lambda>(r, x). row_rejected (compareWithXs ex_common)
            (assignValues ex_common (instructionMapping ?t) [(''opc'', ''01'')]) r) (entries ?t)"
    using r by (simp add: ex_common_def)
  have "decode ex_common ?t [(''opc'', ''01'')] = Inr PyNone"
    using decode_no_match [OF h1 h2] by simp
  with r show ?thesis by simp
qed

subsection \<open>The constructor on a section\<close>

text \<open>
  C3, as the claim states it, fails. A section whose table has the two header
  rows and exactly one data row is built without \<open>directFile\<close> and with one
  entry, and decoding through it matches the variables (here it returns \<open>None\<close>
  for \<open>subop = 11\<close> instead of the target of the one row). A section whose table
  has one header row and two data rows is built with \<open>directFile\<close>. And of two
  data rows with the same key only the later one is an entry.
\<close>

theorem one_data_row_counterexample:
  "sect_body ex_leaf_one_row = Some [ex_tr [(''encname'', ''A'')] ''00''] \<and>
   init_sect ''arm'' ex_leaf_one_row =
     Inr (EncodingTable ex_vars [([(Some ''subop'', Some ''00'')], Str ''A'')] None) \<and>
   decode ex_common (EncodingTable ex_vars [([(Some ''subop'', Some ''00'')], Str ''A'')] None)
     [(''opc'', ''10''), (''subop'', ''11'')] = Inr PyNone \<and>
   init_sect ''arm''
     (ex_sect ''two'' ex_thead1 [ex_tr [(''encname'', ''A'')] ''a'', ex_tr [(''encname'', ''B'')] ''b''])
     = Inr (EncodingTable ex_vars [] (Some (Str ''A''))) \<and>
   sect_body ex_leaf_same_key =
     Some [ex_tr [(''encname'', ''A'')] ''00'', ex_tr [(''encname'', ''B'')] ''01'',
           ex_tr [(''encname'', ''C'')] ''00''] \<and>
   init_sect ''arm'' ex_leaf_same_key =
     Inr (EncodingTable ex_vars
            [([(Some ''subop'', Some ''00'')], Str ''C''),
             ([(Some ''subop'', Some ''01'')], Str ''B'')] None)"
  by code_simp

text \<open>
  C3, amended. What the constructor tests is the number of rows of the table
  head. When the head has exactly one row, \<open>directFile\<close> is the page (or the name)
  of the first data row, \<open>entries\<close> is empty, and \<open>decode\<close> returns for every
  instruction what that target gives, without matching any variable. When the
  head has any other number of rows, \<open>directFile\<close> is not set, the key of every
  data row is a key of \<open>entries\<close>, every data row whose key no later row repeats
  is an entry with its own page (or name) as the value, and \<open>entries\<close> has no
  entry that is not the key and the value of a data row.
\<close>

theorem init_sect_direct_or_table:
  assumes "init_sect path hierarchy = Inr t"
    and "sect_headers hierarchy = Some headers"
    and "sect_body hierarchy = Some rows"
  shows "(length headers = 1 \<longrightarrow>
            (\<exists>tr rest target. rows = tr # rest \<and> row_target path tr = Inr target \<and>
               directFile t = Some target \<and> entries t = [] \<and>
               (\<forall>c instruction. decode c t instruction =
                  (case target of
                     Table sub \<Rightarrow> decode c sub instruction
                   | InstructionPage p \<Rightarrow> Inr (Disassembled (disassemble c p instruction))
                   | Str s \<Rightarrow> Inr (Name s))))) \<and>
         (length headers \<noteq> 1 \<longrightarrow>
            directFile t = None \<and>
            (\<forall>tr\<in>set rows. \<exists>mapping target.
               row_entry path (header_vars headers) tr = Inr (mapping, target) \<and>
               mapping \<in> fst ` set (entries t)) \<and>
            (\<forall>xs tr zs mapping target.
               rows = xs @ tr # zs \<longrightarrow>
               row_entry path (header_vars headers) tr = Inr (mapping, target) \<longrightarrow>
               list_all (\<lambda>r. row_mapping (header_vars headers) (findall ''td'' r) \<noteq> Inr mapping)
                 zs \<longrightarrow>
               (mapping, target) \<in> set (entries t) \<and>
               map_of (entries t) mapping = Some target) \<and>
            (\<forall>e\<in>set (entries t). \<exists>tr\<in>set rows.
               row_entry path (header_vars headers) tr = Inr e))"
proof (cases "length headers = 1")
  case True
  with init_sect_cases [OF assms(1)] assms(2,3)
  obtain im tr rest target where "rows = tr # rest" "row_target path tr = Inr target"
    "t = EncodingTable im [] (Some target)"
    by auto
  moreover from this have "decode c t instruction =
                  (case target of
                     Table sub \<Rightarrow> decode c sub instruction
                   | InstructionPage p \<Rightarrow> Inr (Disassembled (disassemble c p instruction))
                   | Str s \<Rightarrow> Inr (Name s))" for c :: "('i, 'r) common" and instruction
    by (cases target) simp_all
  ultimately show ?thesis using True by auto
next
  case False
  with init_sect_cases [OF assms(1)] assms(2,3)
  obtain im ents where run: "sect_rows path (header_vars headers) rows [] = Inr ents"
    and t: "t = EncodingTable im ents None"
    by auto
  have a: "\<forall>tr\<in>set rows. \<exists>mapping target.
               row_entry path (header_vars headers) tr = Inr (mapping, target) \<and>
               mapping \<in> fst ` set ents"
    using sect_rows_keys [OF run] by simp
  have b: "(mapping, target) \<in> set ents \<and> map_of ents mapping = Some target"
    if "rows = xs @ tr # zs"
      and "row_entry path (header_vars headers) tr = Inr (mapping, target)"
      and "list_all (\<lambda>r. row_mapping (header_vars headers) (findall ''td'' r) \<noteq> Inr mapping) zs"
    for xs tr zs mapping target
  proof -
    from run that(1) have "sect_rows path (header_vars headers) (xs @ tr # zs) [] = Inr ents"
      by simp
    from sect_rows_last [OF this that(2,3)] have "map_of ents mapping = Some target" .
    then show ?thesis by (simp add: map_of_SomeD)
  qed
  have c: "\<forall>e\<in>set ents. \<exists>tr\<in>set rows. row_entry path (header_vars headers) tr = Inr e"
    using sect_rows_origin [OF run] by simp
  from False t a b c show ?thesis by simp
qed

theorem init_sect_direct_or_table_witness:
  "init_sect ''arm'' ex_leaf_single =
     Inr (EncodingTable ex_vars [] (Some (InstructionPage ''arm/a.xml''))) \<and>
   sect_headers ex_leaf_single = Some (children ex_thead1) \<and>
   sect_body ex_leaf_single = Some [ex_tr [(''encname'', ''A''), (''iformfile'', ''a.xml'')] ''A''] \<and>
   length (children ex_thead1) = 1 \<and>
   decode ex_common (EncodingTable ex_vars [] (Some (InstructionPage ''arm/a.xml'')))
     [(''opc'', ''10''), (''subop'', ''11'')] = Inr (Disassembled ''arm/a.xml'') \<and>
   init_sect ''arm'' ex_leaf =
     Inr (EncodingTable ex_vars
            [([(Some ''subop'', Some ''00'')], InstructionPage ''arm/a.xml''),
             ([(Some ''subop'', Some ''x1'')], Str ''B'')] None) \<and>
   sect_headers ex_leaf = Some (children ex_thead2) \<and>
   sect_body ex_leaf =
     Some ([ex_tr [(''encname'', ''A''), (''iformfile'', ''a.xml'')] ''00''] @
           ex_tr [(''encname'', ''B'')] ''x1'' # []) \<and>
   length (children ex_thead2) \<noteq> 1 \<and>
   row_entry ''arm'' (header_vars (children ex_thead2)) (ex_tr [(''encname'', ''B'')] ''x1'')
     = Inr ([(Some ''subop'', Some ''x1'')], Str ''B'') \<and>
   map_of (entries (EncodingTable ex_vars
            [([(Some ''subop'', Some ''00'')], InstructionPage ''arm/a.xml''),
             ([(Some ''subop'', Some ''x1'')], Str ''B'')] None))
     [(Some ''subop'', Some ''x1'')] = Some (Str ''B'')"
proof -
  let ?t = "EncodingTable ex_vars [] (Some (InstructionPage ''arm/a.xml''))"
  let ?tr = "ex_tr [(''encname'', ''A''), (''iformfile'', ''a.xml'')] ''A''"
  let ?i = "[(''opc'', ''10''), (''subop'', ''11'')]"
  have h1: "init_sect ''arm'' ex_leaf_single = Inr ?t"
    by code_simp
  have h2: "sect_headers ex_leaf_single = Some (children ex_thead1)"
    by code_simp
  have h3: "sect_body ex_leaf_single = Some [?tr]"
    by code_simp
  have h4: "length (children ex_thead1) = 1"
    by code_simp
  have t: "row_target ''arm'' ?tr = Inr (InstructionPage ''arm/a.xml'')"
    by code_simp
  from init_sect_direct_or_table [OF h1 h2 h3] h4 t
  have "decode ex_common ?t ?i = Inr (Disassembled (disassemble ex_common ''arm/a.xml'' ?i))"
    by (auto simp del: decode.simps)
  then have c1: "decode ex_common ?t ?i = Inr (Disassembled ''arm/a.xml'')"
    by (simp add: ex_common_def)
  let ?u = "EncodingTable ex_vars
            [([(Some ''subop'', Some ''00'')], InstructionPage ''arm/a.xml''),
             ([(Some ''subop'', Some ''x1'')], Str ''B'')] None"
  let ?ra = "ex_tr [(''encname'', ''A''), (''iformfile'', ''a.xml'')] ''00''"
  let ?rb = "ex_tr [(''encname'', ''B'')] ''x1''"
  have g1: "init_sect ''arm'' ex_leaf = Inr ?u"
    by code_simp
  have g2: "sect_headers ex_leaf = Some (children ex_thead2)"
    by code_simp
  have g3: "sect_body ex_leaf = Some ([?ra] @ ?rb # [])"
    by code_simp
  have g4: "length (children ex_thead2) \<noteq> 1"
    by code_simp
  have g5: "row_entry ''arm'' (header_vars (children ex_thead2)) ?rb
              = Inr ([(Some ''subop'', Some ''x1'')], Str ''B'')"
    by code_simp
  have g6: "list_all (\<lambda>r. row_mapping (header_vars (children ex_thead2)) (findall ''td'' r)
              \<noteq> Inr [(Some ''subop'', Some ''x1'')]) []"
    by simp
  from init_sect_direct_or_table [OF g1 g2 g3] g4
  have "\<forall>xs tr zs mapping target.
               [?ra] @ ?rb # [] = xs @ tr # zs \<longrightarrow>
               row_entry ''arm'' (header_vars (children ex_thead2)) tr = Inr (mapping, target) \<longrightarrow>
               list_all (\<lambda>r. row_mapping (header_vars (children ex_thead2)) (findall ''td'' r)
                  \<noteq> Inr mapping) zs \<longrightarrow>
               (mapping, target) \<in> set (entries ?u) \<and>
               map_of (entries ?u) mapping = Some target"
    by blast
  with g5 g6 have c2: "map_of (entries ?u) [(Some ''subop'', Some ''x1'')] = Some (Str ''B'')"
    by blast
  show ?thesis
    by (intro conjI h1 h2 h3 h4 c1 g1 g2 g3 g4 g5 c2)
qed

text \<open>
  C10. When two data rows of a section's table give the same key, and no row
  after the second of them gives it again, \<open>entries\<close> has exactly one entry for
  that key, and its value is the target of the second row.
\<close>

theorem init_sect_same_key:
  assumes "init_sect path hierarchy = Inr t"
    and "sect_headers hierarchy = Some headers"
    and "length headers \<noteq> 1"
    and "sect_body hierarchy = Some (xs @ r1 # ys @ r2 # zs)"
    and "row_mapping (header_vars headers) (findall ''td'' r1) = Inr k"
    and "row_mapping (header_vars headers) (findall ''td'' r2) = Inr k"
    and "row_target path r2 = Inr t2"
    and "list_all (\<lambda>r. row_mapping (header_vars headers) (findall ''td'' r) \<noteq> Inr k) zs"
  shows "length (filter (\<lambda>e. fst e = k) (entries t)) = 1 \<and> map_of (entries t) k = Some t2"
proof -
  let ?tv = "header_vars headers"
  from init_sect_cases [OF assms(1)] assms(2,3,4)
  have run: "sect_rows path ?tv ((xs @ r1 # ys) @ r2 # zs) [] = Inr (entries t)"
    by auto
  then obtain mid where mid: "sect_rows path ?tv (xs @ r1 # ys) [] = Inr mid"
    and rest: "sect_rows path ?tv (r2 # zs) mid = Inr (entries t)"
    unfolding sect_rows_append [of path ?tv "xs @ r1 # ys"]
    by (auto split: sum.splits)
  from assms(6,7) have "row_entry path ?tv r2 = Inr (k, t2)"
    by (simp add: row_entry_key)
  with rest have z: "sect_rows path ?tv zs (dict_set mid k t2) = Inr (entries t)"
    by simp
  have "map_of (entries t) k = map_of (dict_set mid k t2) k"
    using sect_rows_other_keys [OF z] assms(8) by (simp add: list_all_iff)
  then have m: "map_of (entries t) k = Some t2"
    by (simp add: map_of_dict_set)
  have "distinct (map fst (entries t))"
    using sect_rows_distinct [OF run] by simp
  with m show ?thesis by (simp add: distinct_count_one)
qed

theorem init_sect_same_key_witness:
  "init_sect ''arm'' ex_leaf_same_key =
     Inr (EncodingTable ex_vars
            [([(Some ''subop'', Some ''00'')], Str ''C''),
             ([(Some ''subop'', Some ''01'')], Str ''B'')] None) \<and>
   sect_headers ex_leaf_same_key = Some (children ex_thead2) \<and>
   length (children ex_thead2) \<noteq> 1 \<and>
   sect_body ex_leaf_same_key =
     Some ([] @ ex_tr [(''encname'', ''A'')] ''00'' #
           [ex_tr [(''encname'', ''B'')] ''01''] @ ex_tr [(''encname'', ''C'')] ''00'' # []) \<and>
   row_mapping (header_vars (children ex_thead2))
     (findall ''td'' (ex_tr [(''encname'', ''A'')] ''00'')) = Inr [(Some ''subop'', Some ''00'')] \<and>
   row_mapping (header_vars (children ex_thead2))
     (findall ''td'' (ex_tr [(''encname'', ''C'')] ''00'')) = Inr [(Some ''subop'', Some ''00'')] \<and>
   row_target ''arm'' (ex_tr [(''encname'', ''A'')] ''00'') = Inr (Str ''A'') \<and>
   row_target ''arm'' (ex_tr [(''encname'', ''C'')] ''00'') = Inr (Str ''C'') \<and>
   length (filter (\<lambda>e. fst e = [(Some ''subop'', Some ''00'')])
     (entries (EncodingTable ex_vars
            [([(Some ''subop'', Some ''00'')], Str ''C''),
             ([(Some ''subop'', Some ''01'')], Str ''B'')] None))) = 1 \<and>
   map_of (entries (EncodingTable ex_vars
            [([(Some ''subop'', Some ''00'')], Str ''C''),
             ([(Some ''subop'', Some ''01'')], Str ''B'')] None))
     [(Some ''subop'', Some ''00'')] = Some (Str ''C'')"
proof -
  let ?k = "[(Some ''subop'', Some ''00'')]"
  let ?t = "EncodingTable ex_vars [(?k, Str ''C''), ([(Some ''subop'', Some ''01'')], Str ''B'')] None"
  have h1: "init_sect ''arm'' ex_leaf_same_key = Inr ?t"
    by code_simp
  have h2: "sect_headers ex_leaf_same_key = Some (children ex_thead2)"
    by code_simp
  have h3: "length (children ex_thead2) \<noteq> 1"
    by code_simp
  have h4: "sect_body ex_leaf_same_key =
     Some ([] @ ex_tr [(''encname'', ''A'')] ''00'' #
           [ex_tr [(''encname'', ''B'')] ''01''] @ ex_tr [(''encname'', ''C'')] ''00'' # [])"
    by code_simp
  have h5: "row_mapping (header_vars (children ex_thead2))
     (findall ''td'' (ex_tr [(''encname'', ''A'')] ''00'')) = Inr ?k"
    by code_simp
  have h6: "row_mapping (header_vars (children ex_thead2))
     (findall ''td'' (ex_tr [(''encname'', ''C'')] ''00'')) = Inr ?k"
    by code_simp
  have h7: "row_target ''arm'' (ex_tr [(''encname'', ''C'')] ''00'') = Inr (Str ''C'')"
    by code_simp
  have h8: "list_all (\<lambda>r. row_mapping (header_vars (children ex_thead2)) (findall ''td'' r)
              \<noteq> Inr ?k) []"
    by simp
  have h9: "row_target ''arm'' (ex_tr [(''encname'', ''A'')] ''00'') = Inr (Str ''A'')"
    by code_simp
  note c = init_sect_same_key [OF h1 h2 h3 h4 h5 h6 h7 h8]
  show ?thesis
    by (intro conjI h1 h2 h3 h4 h5 h6 h7 h9 conjunct1 [OF c] conjunct2 [OF c])
qed

subsection \<open>The constructor on a grouping fragment\<close>

text \<open>
  C7. Let a node of a grouping fragment have no \<open>groupname\<close> and the \<open>iclass\<close>
  \<open>iclass\<close>, and let every \<open>iclass_sect\<close> of the document carry an \<open>id\<close> other
  than \<open>iclass\<close>. Then the loop over the nodes does not fail at this node: it
  stores the string \<open>iclass\<close> under the row key of the node and goes on with the
  remaining nodes; and when the loop returns and no later node has the same row
  key, the string is what the table holds for that key.
\<close>

theorem init_nodes_unresolved:
  assumes "node_mapping node = Inr mapping"
    and "\<not> has_attr ''groupname'' node"
    and "map_of (attrib node) ''iclass'' = Some iclass"
    and "list_all (other_id iclass) (findall_deep ''iclass_sect'' root)"
  shows "init_nodes path root (node # nodes) ents
           = init_nodes path root nodes (dict_set ents mapping (Str iclass)) \<and>
         (\<forall>out. init_nodes path root nodes (dict_set ents mapping (Str iclass)) = Inr out \<longrightarrow>
            list_all (\<lambda>n. node_mapping n \<noteq> Inr mapping) nodes \<longrightarrow>
            map_of out mapping = Some (Str iclass))"
  using assms(1,2,3) sect_loop_absent [OF assms(4), of path mapping False ents]
  by (auto simp: init_nodes_keeps)

theorem init_nodes_unresolved_witness:
  "node_mapping (ex_node [(''iclass'', ''absent'')] ''1x'') = Inr [(Some ''opc'', Some ''1x'')] \<and>
   \<not> has_attr ''groupname'' (ex_node [(''iclass'', ''absent'')] ''1x'') \<and>
   map_of (attrib (ex_node [(''iclass'', ''absent'')] ''1x'')) ''iclass'' = Some ''absent'' \<and>
   list_all (other_id ''absent'') (findall_deep ''iclass_sect'' ex_doc_absent) \<and>
   init_nodes ''arm'' ex_doc_absent [ex_node [(''iclass'', ''absent'')] ''1x''] []
     = Inr [([(Some ''opc'', Some ''1x'')], Str ''absent'')] \<and>
   init_node ''arm'' ex_doc_absent (ex_hierarchy [ex_node [(''iclass'', ''absent'')] ''1x''])
     = Inr (EncodingTable ex_vars [([(Some ''opc'', Some ''1x'')], Str ''absent'')] None)"
proof -
  let ?node = "ex_node [(''iclass'', ''absent'')] ''1x''"
  have h1: "node_mapping ?node = Inr [(Some ''opc'', Some ''1x'')]"
    by code_simp
  have h2: "\<not> has_attr ''groupname'' ?node"
    by code_simp
  have h3: "map_of (attrib ?node) ''iclass'' = Some ''absent''"
    by code_simp
  have h4: "list_all (other_id ''absent'') (findall_deep ''iclass_sect'' ex_doc_absent)"
    by code_simp
  have "init_nodes ''arm'' ex_doc_absent [?node] []
          = init_nodes ''arm'' ex_doc_absent [] (dict_set [] [(Some ''opc'', Some ''1x'')] (Str ''absent''))"
    using init_nodes_unresolved [OF h1 h2 h3 h4, of "''arm''" "[]" "[]"] by blast
  then have c: "init_nodes ''arm'' ex_doc_absent [?node] []
          = Inr [([(Some ''opc'', Some ''1x'')], Str ''absent'')]"
    by simp
  have w: "init_node ''arm'' ex_doc_absent (ex_hierarchy [?node])
     = Inr (EncodingTable ex_vars [([(Some ''opc'', Some ''1x'')], Str ''absent'')] None)"
    by code_simp
  show ?thesis
    by (intro conjI h1 h2 h3 h4 c w)
qed

text \<open>
  C8, as the claim states it, fails: with two sections of the \<open>id\<close> \<open>dup\<close>, the
  table stored for the node is the one built from the second section, not from
  the first.
\<close>

theorem duplicate_section_counterexample:
  "findall_deep ''iclass_sect'' ex_doc_twice =
     [ex_sect ''dup'' ex_thead1 [ex_tr [(''encname'', ''FIRST'')] ''F''],
      ex_sect ''dup'' ex_thead1 [ex_tr [(''encname'', ''SECOND'')] ''S'']] \<and>
   init_sect ''arm'' (ex_sect ''dup'' ex_thead1 [ex_tr [(''encname'', ''FIRST'')] ''F''])
     = Inr (EncodingTable ex_vars [] (Some (Str ''FIRST''))) \<and>
   init_node ''arm'' ex_doc_twice (ex_hierarchy [ex_node [(''iclass'', ''dup'')] ''1x''])
     = Inr (EncodingTable ex_vars
         [([(Some ''opc'', Some ''1x'')], Table (EncodingTable ex_vars [] (Some (Str ''SECOND''))))]
         None)"
  by code_simp

text \<open>
  C8, amended. When the \<open>id\<close> of several sections is the \<open>iclass\<close> of a node, and
  the constructor returns on each of them, the value stored under the row key of
  the node is the table built from the last of them in document order: every
  later match replaces the earlier one.
\<close>

theorem init_nodes_last_section:
  assumes "node_mapping node = Inr mapping"
    and "\<not> has_attr ''groupname'' node"
    and "map_of (attrib node) ''iclass'' = Some iclass"
    and "findall_deep ''iclass_sect'' root = pre @ sect # post"
    and "list_all (builds_or_other_id path iclass) pre"
    and "map_of (attrib sect) ''id'' = Some iclass"
    and "init_sect path sect = Inr t"
    and "list_all (other_id iclass) post"
  shows "init_nodes path root (node # nodes) ents
           = init_nodes path root nodes (dict_set ents mapping (Table t)) \<and>
         (\<forall>out. init_nodes path root nodes (dict_set ents mapping (Table t)) = Inr out \<longrightarrow>
            list_all (\<lambda>n. node_mapping n \<noteq> Inr mapping) nodes \<longrightarrow>
            map_of out mapping = Some (Table t))"
  using assms(1,2,3,4) sect_loop_last [OF assms(5,6,7,8), of mapping False ents]
  by (auto simp: init_nodes_keeps)

theorem init_nodes_last_section_witness:
  "node_mapping (ex_node [(''iclass'', ''dup'')] ''1x'') = Inr [(Some ''opc'', Some ''1x'')] \<and>
   \<not> has_attr ''groupname'' (ex_node [(''iclass'', ''dup'')] ''1x'') \<and>
   map_of (attrib (ex_node [(''iclass'', ''dup'')] ''1x'')) ''iclass'' = Some ''dup'' \<and>
   findall_deep ''iclass_sect'' ex_doc_twice =
     [ex_sect ''dup'' ex_thead1 [ex_tr [(''encname'', ''FIRST'')] ''F'']] @
     ex_sect ''dup'' ex_thead1 [ex_tr [(''encname'', ''SECOND'')] ''S''] # [] \<and>
   list_all (builds_or_other_id ''arm'' ''dup'')
     [ex_sect ''dup'' ex_thead1 [ex_tr [(''encname'', ''FIRST'')] ''F'']] \<and>
   map_of (attrib (ex_sect ''dup'' ex_thead1 [ex_tr [(''encname'', ''SECOND'')] ''S''])) ''id''
     = Some ''dup'' \<and>
   init_sect ''arm'' (ex_sect ''dup'' ex_thead1 [ex_tr [(''encname'', ''SECOND'')] ''S''])
     = Inr (EncodingTable ex_vars [] (Some (Str ''SECOND''))) \<and>
   init_nodes ''arm'' ex_doc_twice [ex_node [(''iclass'', ''dup'')] ''1x''] []
     = Inr [([(Some ''opc'', Some ''1x'')],
             Table (EncodingTable ex_vars [] (Some (Str ''SECOND''))))]"
proof -
  let ?node = "ex_node [(''iclass'', ''dup'')] ''1x''"
  let ?s1 = "ex_sect ''dup'' ex_thead1 [ex_tr [(''encname'', ''FIRST'')] ''F'']"
  let ?s2 = "ex_sect ''dup'' ex_thead1 [ex_tr [(''encname'', ''SECOND'')] ''S'']"
  let ?t2 = "EncodingTable ex_vars [] (Some (Str ''SECOND''))"
  have h1: "node_mapping ?node = Inr [(Some ''opc'', Some ''1x'')]"
    by code_simp
  have h2: "\<not> has_attr ''groupname'' ?node"
    by code_simp
  have h3: "map_of (attrib ?node) ''iclass'' = Some ''dup''"
    by code_simp
  have h4: "findall_deep ''iclass_sect'' ex_doc_twice = [?s1] @ ?s2 # []"
    by code_simp
  have h5: "list_all (builds_or_other_id ''arm'' ''dup'') [?s1]"
    by code_simp
  have h6: "map_of (attrib ?s2) ''id'' = Some ''dup''"
    by code_simp
  have h7: "init_sect ''arm'' ?s2 = Inr ?t2"
    by code_simp
  have h8: "list_all (other_id ''dup'') []"
    by simp
  have "init_nodes ''arm'' ex_doc_twice [?node] []
          = init_nodes ''arm'' ex_doc_twice [] (dict_set [] [(Some ''opc'', Some ''1x'')] (Table ?t2))"
    using init_nodes_last_section [OF h1 h2 h3 h4 h5 h6 h7 h8, of "[]" "[]"] by blast
  then have c: "init_nodes ''arm'' ex_doc_twice [?node] []
          = Inr [([(Some ''opc'', Some ''1x'')], Table ?t2)]"
    by simp
  show ?thesis
    by (intro conjI h1 h2 h3 h4 h5 h6 h7 c)
qed

subsection \<open>The invariant of the tables\<close>

text \<open>
  C9, as the claim states it, fails: a grouping fragment without nodes is built
  into a table whose \<open>entries\<close> is empty and whose \<open>directFile\<close> is not set.
\<close>

theorem empty_fragment_counterexample:
  "EncodingTable_init ''arm'' (Element ''encodingindex'' [] None [ex_hierarchy []])
     (ex_hierarchy []) False = Inr (EncodingTable ex_vars [] None) \<and>
   entries (EncodingTable ex_vars [] None) = [] \<and>
   directFile (EncodingTable ex_vars [] None) = None"
  by code_simp

text \<open>
  C9, amended. In every table that the constructor returns, and in every table
  below it, \<open>entries\<close> is empty when \<open>directFile\<close> is set. The table has a
  non-empty \<open>entries\<close> or a \<open>directFile\<close> when its fragment has something to put
  there: a data row for a section, a node with a \<open>groupname\<close> or an \<open>iclass\<close> for
  a grouping fragment.
\<close>

theorem init_exclusive_populated:
  assumes "EncodingTable_init path root hierarchy sect = Inr t"
  shows "exclusive t \<and> (produces hierarchy sect \<longrightarrow> entries t \<noteq> [] \<or> directFile t \<noteq> None)"
proof (cases sect)
  case True
  with assms have run: "init_sect path hierarchy = Inr t"
    by (simp add: EncodingTable_init_def)
  from init_sect_cases [OF run] obtain im headers rows where
    body: "sect_body hierarchy = Some rows"
    and c: "if length headers = 1
            then \<exists>tr rest target. rows = tr # rest \<and> row_target path tr = Inr target \<and>
                   t = EncodingTable im [] (Some target)
            else \<exists>ents. sect_rows path (header_vars headers) rows [] = Inr ents \<and>
                   t = EncodingTable im ents None"
    by blast
  have "produces hierarchy sect \<longrightarrow> entries t \<noteq> [] \<or> directFile t \<noteq> None"
  proof (cases "length headers = 1")
    case True
    with c show ?thesis by auto
  next
    case False
    with c obtain ents where "sect_rows path (header_vars headers) rows [] = Inr ents"
      and "t = EncodingTable im ents None"
      by auto
    with body \<open>sect\<close> sect_rows_nonempty [of path "header_vars headers" rows "[]" ents]
    show ?thesis by (auto simp: produces_def)
  qed
  with init_sect_exclusive [OF run] show ?thesis by simp
next
  case False
  with assms have run: "init_node path root hierarchy = Inr t"
    by (simp add: EncodingTable_init_def)
  then obtain im ents where ents: "init_nodes path root (findall ''node'' hierarchy) [] = Inr ents"
    and t: "t = EncodingTable im ents None"
    by (auto split: sum.splits)
  from init_nodes_nonempty [OF ents] False t
  have "produces hierarchy sect \<longrightarrow> entries t \<noteq> [] \<or> directFile t \<noteq> None"
    by (simp add: produces_def)
  with init_exclusive(2) [of path root hierarchy] run show ?thesis by simp
qed

theorem init_exclusive_populated_witness:
  "EncodingTable_init ''arm'' ex_doc (ex_hierarchy [ex_node [(''iclass'', ''ldst'')] ''1x'']) False
     = Inr (EncodingTable ex_vars
         [([(Some ''opc'', Some ''1x'')],
           Table (EncodingTable ex_vars
             [([(Some ''subop'', Some ''00'')], InstructionPage ''arm/a.xml''),
              ([(Some ''subop'', Some ''x1'')], Str ''B'')] None))] None) \<and>
   produces (ex_hierarchy [ex_node [(''iclass'', ''ldst'')] ''1x'']) False \<and>
   exclusive (EncodingTable ex_vars
         [([(Some ''opc'', Some ''1x'')],
           Table (EncodingTable ex_vars
             [([(Some ''subop'', Some ''00'')], InstructionPage ''arm/a.xml''),
              ([(Some ''subop'', Some ''x1'')], Str ''B'')] None))] None)"
proof -
  let ?h = "ex_hierarchy [ex_node [(''iclass'', ''ldst'')] ''1x'']"
  let ?t = "EncodingTable ex_vars
         [([(Some ''opc'', Some ''1x'')],
           Table (EncodingTable ex_vars
             [([(Some ''subop'', Some ''00'')], InstructionPage ''arm/a.xml''),
              ([(Some ''subop'', Some ''x1'')], Str ''B'')] None))] None"
  have h1: "EncodingTable_init ''arm'' ex_doc ?h False = Inr ?t"
    by code_simp
  have h2: "produces ?h False"
    by code_simp
  from init_exclusive_populated [OF h1] have c: "exclusive ?t"
    by (rule conjunct1)
  show ?thesis
    by (intro conjI h1 h2 c)
qed

end
